theory Spec2Isabelle
  imports Main "HOL-Library.Multiset"
begin

section \<open>Values of the program\<close>

text \<open>
  \<^verbatim>\<open>zfs-snap.py\<close> talks JSON-RPC to a storage appliance: every reply it reads is
  whatever \<^verbatim>\<open>json.loads\<close> returns, and every request it sends is built from such values.
  A decoded JSON value is \<open>None\<close>, a bool, a number, a string, a list or a dict with string
  keys. Numbers are integers here (a JSON real is outside the model); strings are lists
  of 8-bit characters; a dict is an association list in which the first binding of a key
  is the dict's entry.
\<close>

datatype json =
    JNull
  | JBool bool
  | JInt int
  | JStr string
  | JArr "json list"
  | JObj "(string \<times> json) list"

text \<open>The exceptions the program can end with; \<open>SystemExit n\<close> is \<^verbatim>\<open>sys.exit(n)\<close>.\<close>

datatype error =
    IndexError
  | KeyError
  | TypeError
  | ValueError
  | AttributeError
  | WebSocketError
  | SystemExit int

text \<open>
  What \<^verbatim>\<open>print\<close> writes, one constructor per call site, holding the values the line is
  formatted from.
\<close>

datatype event =
    Login_failed json
  | Creating_snapshot string
  | ERROR json
  | OK json
  | Pruning_snapshots int string
  | Deleting string
  | Prune_completed

text \<open>
  The state the program changes: the requests sent on the connection, oldest first, and
  the lines printed.
\<close>

record world =
  sent :: "json list"
  out :: "event list"

text \<open>
  The appliance, as the program sees it: given the requests sent so far (the last one is
  the one being answered), either \<^verbatim>\<open>ws.send\<close>, \<^verbatim>\<open>ws.recv\<close> or \<^verbatim>\<open>json.loads\<close> raises, or
  a decoded reply comes back.
\<close>

type_synonym peer = "json list \<Rightarrow> error + json"

definition print :: "event \<Rightarrow> world \<Rightarrow> world" where
  "print e w = w\<lparr>out := out w @ [e]\<rparr>"

section \<open>The operations of Python the program uses\<close>

definition startswith :: "string \<Rightarrow> string \<Rightarrow> bool" where
  \<comment> \<open>\<^verbatim>\<open>s.startswith(p)\<close>\<close>
  "startswith s p = (take (length p) s = p)"

fun str_contains :: "string \<Rightarrow> string \<Rightarrow> bool" where
  \<comment> \<open>\<^verbatim>\<open>k in s\<close> for two strings\<close>
  "str_contains k [] = (k = [])"
| "str_contains k (c # cs) = (startswith (c # cs) k \<or> str_contains k cs)"

fun split_on :: "char \<Rightarrow> string \<Rightarrow> string list" where
  \<comment> \<open>\<^verbatim>\<open>s.split(sep)\<close> for a separator of one character\<close>
  "split_on sep [] = [[]]"
| "split_on sep (c # cs) =
     (if c = sep then [] # split_on sep cs
      else (case split_on sep cs of
              [] \<Rightarrow> [[c]]
            | p # ps \<Rightarrow> (c # p) # ps))"

fun py_contains :: "string \<Rightarrow> json \<Rightarrow> error + bool" where
  \<comment> \<open>\<^verbatim>\<open>k in x\<close> for a string \<open>k\<close>\<close>
  "py_contains k (JObj kvs) = Inr (k \<in> set (map fst kvs))"
| "py_contains k (JArr xs) = Inr (JStr k \<in> set xs)"
| "py_contains k (JStr s) = Inr (str_contains k s)"
| "py_contains k _ = Inl TypeError"

fun py_getitem :: "json \<Rightarrow> string \<Rightarrow> error + json" where
  \<comment> \<open>\<^verbatim>\<open>x[k]\<close> for a string \<open>k\<close>: only a dict can be indexed by a string\<close>
  "py_getitem (JObj kvs) k = (case map_of kvs k of None \<Rightarrow> Inl KeyError | Some v \<Rightarrow> Inr v)"
| "py_getitem _ k = Inl TypeError"

fun py_get :: "json \<Rightarrow> string \<Rightarrow> json \<Rightarrow> error + json" where
  \<comment> \<open>\<^verbatim>\<open>x.get(k, d)\<close>: only a dict has the method\<close>
  "py_get (JObj kvs) k d = Inr (case map_of kvs k of None \<Rightarrow> d | Some v \<Rightarrow> v)"
| "py_get _ k d = Inl AttributeError"

fun py_iter :: "json \<Rightarrow> error + json list" where
  \<comment> \<open>the items \<^verbatim>\<open>for v in x\<close> runs through: a list's elements, a dict's keys, a string's
      characters\<close>
  "py_iter (JArr xs) = Inr xs"
| "py_iter (JObj kvs) = Inr (map JStr (rev (remdups (rev (map fst kvs)))))"
| "py_iter (JStr s) = Inr (map (\<lambda>c. JStr [c]) s)"
| "py_iter _ = Inl TypeError"

fun py_split :: "json \<Rightarrow> error + string list" where
  \<comment> \<open>\<^verbatim>\<open>x.split("@")\<close>: only a string has the method\<close>
  "py_split (JStr s) = Inr (split_on (CHR ''@'') s)"
| "py_split _ = Inl AttributeError"

definition py_index :: "'a list \<Rightarrow> nat \<Rightarrow> error + 'a" where
  \<comment> \<open>\<^verbatim>\<open>xs[i]\<close> for a literal index \<open>i \<ge> 0\<close>\<close>
  "py_index xs i = (if i < length xs then Inr (xs ! i) else Inl IndexError)"

definition py_slice_from :: "int \<Rightarrow> 'a list \<Rightarrow> 'a list" where
  \<comment> \<open>\<^verbatim>\<open>xs[k:]\<close>: a negative \<open>k\<close> counts from the end, and the start is clipped to the list\<close>
  "py_slice_from k xs =
     (let n = int (length xs);
          start = (if k < 0 then max (n + k) 0 else min k n)
      in drop (nat start) xs)"

definition py_slice_to :: "int \<Rightarrow> 'a list \<Rightarrow> 'a list" where
  \<comment> \<open>\<^verbatim>\<open>xs[:k]\<close>, with the same clipping: what \<^verbatim>\<open>xs[k:]\<close> leaves, so the records a
      pruning pass retains\<close>
  "py_slice_to k xs =
     (let n = int (length xs);
          stop = (if k < 0 then max (n + k) 0 else min k n)
      in take (nat stop) xs)"

subsection \<open>\<^verbatim>\<open>int(s)\<close> for a string\<close>

text \<open>
  Base 10: white space around the literal is dropped, one sign may lead, and the digits
  may be grouped by single underscores. The model is that of \<^verbatim>\<open>int\<close> on ASCII strings: white
  space is the six ASCII characters, so a literal padded with a white-space character
  beyond ASCII (which \<^verbatim>\<open>int\<close> also drops) is refused here, and the interpreter's optional
  limit on the number of digits is left out. The theorems below hold for any reading of
  the raw value; only the scenario evaluates it, at \<^verbatim>\<open>100\<close>, \<^verbatim>\<open>200\<close> and \<^verbatim>\<open>300\<close>.
\<close>

definition is_space :: "char \<Rightarrow> bool" where
  "is_space c = (c \<in> set [CHR '' '', CHR 0x09, CHR 0x0A, CHR 0x0B, CHR 0x0C, CHR 0x0D])"

definition is_digit :: "char \<Rightarrow> bool" where
  "is_digit c = (c \<in> set ''0123456789'')"

definition digit_val :: "char \<Rightarrow> int" where
  "digit_val c = int (of_char c) - 48"

fun py_digits :: "string \<Rightarrow> int \<Rightarrow> int option" where
  \<comment> \<open>the rest of a literal after a digit; \<open>acc\<close> is the value read so far\<close>
  "py_digits [] acc = Some acc"
| "py_digits (c # cs) acc =
     (if is_digit c then py_digits cs (10 * acc + digit_val c)
      else if c = CHR ''_'' then
        (case cs of
           [] \<Rightarrow> None
         | d # ds \<Rightarrow> if is_digit d then py_digits ds (10 * acc + digit_val d) else None)
      else None)"

definition py_unsigned :: "string \<Rightarrow> int option" where
  "py_unsigned s =
     (case s of
        [] \<Rightarrow> None
      | c # cs \<Rightarrow> if is_digit c then py_digits cs (digit_val c) else None)"

definition py_strip :: "string \<Rightarrow> string" where
  "py_strip s = rev (dropWhile is_space (rev (dropWhile is_space s)))"

definition py_int :: "string \<Rightarrow> int option" where
  "py_int s =
     (case py_strip s of
        [] \<Rightarrow> None
      | c # cs \<Rightarrow>
          if c = CHR ''-'' then map_option uminus (py_unsigned cs)
          else if c = CHR ''+'' then py_unsigned cs
          else py_unsigned (c # cs))"

fun py_int_of :: "json \<Rightarrow> error + int" where
  \<comment> \<open>\<^verbatim>\<open>int(x)\<close>\<close>
  "py_int_of (JInt n) = Inr n"
| "py_int_of (JBool b) = Inr (if b then 1 else 0)"
| "py_int_of (JStr s) = (case py_int s of None \<Rightarrow> Inl ValueError | Some n \<Rightarrow> Inr n)"
| "py_int_of _ = Inl TypeError"

section \<open>The RPC client\<close>

definition envelope :: "string \<Rightarrow> json list \<Rightarrow> int \<Rightarrow> json" where
  \<comment> \<open>the dict \<^verbatim>\<open>msg\<close> of \<^verbatim>\<open>ws_call\<close>; \<^verbatim>\<open>params or []\<close> is \<^verbatim>\<open>[]\<close> for an empty list\<close>
  "envelope method params req_id =
     JObj [(''jsonrpc'', JStr ''2.0''),
           (''id'', JInt req_id),
           (''msg'', JStr ''method''),
           (''method'', JStr method),
           (''params'', JArr (if params = [] then [] else params))]"

definition ws_call :: "peer \<Rightarrow> string \<Rightarrow> json list \<Rightarrow> int \<Rightarrow> world \<Rightarrow> (error + json) \<times> world" where
  "ws_call ws method params req_id w =
     (let w' = w\<lparr>sent := sent w @ [envelope method params req_id]\<rparr>
      in (ws (sent w'), w'))"

definition opt_str :: "string option \<Rightarrow> json" where
  \<comment> \<open>a command-line option that is a string, or \<open>None\<close> when it was not given\<close>
  "opt_str v = (case v of None \<Rightarrow> JNull | Some s \<Rightarrow> JStr s)"

section \<open>Login and snapshot creation\<close>

definition login :: "peer \<Rightarrow> string option \<Rightarrow> world \<Rightarrow> (error + unit) \<times> world" where
  "login ws token w =
     (case ws_call ws ''auth.login_with_api_key'' [opt_str token] 1 w of
        (Inl e, w1) \<Rightarrow> (Inl e, w1)
      | (Inr resp, w1) \<Rightarrow>
          (case py_contains ''error'' resp of
             Inl e \<Rightarrow> (Inl e, w1)
           | Inr False \<Rightarrow> (Inr (), w1)
           | Inr True \<Rightarrow>
               (case py_getitem resp ''error'' of
                  Inl e \<Rightarrow> (Inl e, w1)
                | Inr v \<Rightarrow> (Inl (SystemExit 1), print (Login_failed v) w1))))"

definition create_params :: "string option \<Rightarrow> string \<Rightarrow> json list" where
  "create_params dataset snapname =
     [JObj [(''dataset'', opt_str dataset), (''name'', JStr snapname),
            (''recursive'', JBool True)]]"

definition create_snapshot :: "peer \<Rightarrow> string option \<Rightarrow> string \<Rightarrow> world \<Rightarrow> (error + unit) \<times> world" where
  "create_snapshot ws dataset snapname w =
     (case ws_call ws ''pool.snapshot.create'' (create_params dataset snapname) 2
             (print (Creating_snapshot snapname) w) of
        (Inl e, w1) \<Rightarrow> (Inl e, w1)
      | (Inr resp, w1) \<Rightarrow>
          (case py_contains ''error'' resp of
             Inl e \<Rightarrow> (Inl e, w1)
           | Inr True \<Rightarrow>
               (case py_getitem resp ''error'' of
                  Inl e \<Rightarrow> (Inl e, w1)
                | Inr v \<Rightarrow> (Inl (SystemExit 1), print (ERROR v) w1))
           | Inr False \<Rightarrow>
               (case py_get resp ''result'' JNull of
                  Inl e \<Rightarrow> (Inl e, w1)
                | Inr res \<Rightarrow>
                    (case py_getitem res ''id'' of
                       Inl e \<Rightarrow> (Inl e, w1)
                     | Inr i \<Rightarrow> (Inr (), print (OK i) w1)))))"

section \<open>The pruner\<close>

type_synonym entry = "int \<times> string \<times> json"

definition derive_shortname :: "json \<Rightarrow> error + string" where
  \<comment> \<open>\<^verbatim>\<open>full = snap["name"]; shortname = full.split("@")[1]\<close>\<close>
  "derive_shortname snap =
     (case py_getitem snap ''name'' of
        Inl e \<Rightarrow> Inl e
      | Inr full \<Rightarrow>
          (case py_split full of
             Inl e \<Rightarrow> Inl e
           | Inr parts \<Rightarrow> py_index parts 1))"

definition creation_of :: "json \<Rightarrow> error + int" where
  \<comment> \<open>\<^verbatim>\<open>int(snap["properties"]["creation"]["rawvalue"])\<close>\<close>
  "creation_of snap =
     (case py_getitem snap ''properties'' of
        Inl e \<Rightarrow> Inl e
      | Inr props \<Rightarrow>
          (case py_getitem props ''creation'' of
             Inl e \<Rightarrow> Inl e
           | Inr cr \<Rightarrow>
               (case py_getitem cr ''rawvalue'' of
                  Inl e \<Rightarrow> Inl e
                | Inr raw \<Rightarrow> py_int_of raw)))"

definition snap_entry :: "string \<Rightarrow> json \<Rightarrow> error + entry option" where
  \<comment> \<open>the body of the first loop: the tuple appended for \<open>snap\<close>, if any\<close>
  "snap_entry prefix snap =
     (case derive_shortname snap of
        Inl e \<Rightarrow> Inl e
      | Inr shortname \<Rightarrow>
          if startswith shortname prefix then
            (case creation_of snap of
               Inl e \<Rightarrow> Inl e
             | Inr created \<Rightarrow>
                 (case py_getitem snap ''id'' of
                    Inl e \<Rightarrow> Inl e
                  | Inr snap_id \<Rightarrow> Inr (Some (created, shortname, snap_id))))
          else Inr None)"

fun filter_loop :: "string \<Rightarrow> json list \<Rightarrow> entry list \<Rightarrow> error + entry list" where
  \<comment> \<open>\<^verbatim>\<open>for snap in snapshots: ... filtered.append(...)\<close>\<close>
  "filter_loop prefix [] filtered = Inr filtered"
| "filter_loop prefix (snap # snapshots) filtered =
     (case snap_entry prefix snap of
        Inl e \<Rightarrow> Inl e
      | Inr None \<Rightarrow> filter_loop prefix snapshots filtered
      | Inr (Some t) \<Rightarrow> filter_loop prefix snapshots (filtered @ [t]))"

definition sort_newest_first :: "entry list \<Rightarrow> entry list" where
  \<comment> \<open>\<^verbatim>\<open>filtered.sort(key=lambda x: x[0], reverse=True)\<close>: the sort is stable, and with
      \<^verbatim>\<open>reverse=True\<close> entries of equal key still keep their order\<close>
  "sort_newest_first filtered = sort_key (\<lambda>x. - fst x) filtered"

fun delete_loop :: "peer \<Rightarrow> entry list \<Rightarrow> int \<Rightarrow> world \<Rightarrow> (error + unit) \<times> world" where
  \<comment> \<open>\<^verbatim>\<open>for created, shortname, snap_id in to_delete: ...\<close>; the reply is dropped\<close>
  "delete_loop ws [] req_id w = (Inr (), w)"
| "delete_loop ws ((created, shortname, snap_id) # to_delete) req_id w =
     (case ws_call ws ''pool.snapshot.delete'' [snap_id] req_id (print (Deleting shortname) w) of
        (Inl e, w1) \<Rightarrow> (Inl e, w1)
      | (Inr resp, w1) \<Rightarrow> delete_loop ws to_delete (req_id + 1) w1)"

definition query_params :: "string option \<Rightarrow> json list" where
  "query_params dataset =
     [JArr [JArr [JStr ''dataset'', JStr ''='', opt_str dataset]],
      JObj [(''order_by'', JArr [JStr ''name''])]]"

definition prune_snapshots :: "peer \<Rightarrow> string option \<Rightarrow> int \<Rightarrow> string \<Rightarrow> world \<Rightarrow> (error + unit) \<times> world" where
  "prune_snapshots ws dataset keep prefix w =
     (case ws_call ws ''pool.snapshot.query'' (query_params dataset) 3
             (print (Pruning_snapshots keep prefix) w) of
        (Inl e, w1) \<Rightarrow> (Inl e, w1)
      | (Inr resp, w1) \<Rightarrow>
          (case py_get resp ''result'' (JArr []) of
             Inl e \<Rightarrow> (Inl e, w1)
           | Inr result \<Rightarrow>
               (case py_iter result of
                  Inl e \<Rightarrow> (Inl e, w1)
                | Inr snapshots \<Rightarrow>
                    (case filter_loop prefix snapshots [] of
                       Inl e \<Rightarrow> (Inl e, w1)
                     | Inr filtered \<Rightarrow>
                         (case delete_loop ws
                                 (py_slice_from keep (sort_newest_first filtered)) 10 w1 of
                            (Inl e, w2) \<Rightarrow> (Inl e, w2)
                          | (Inr u, w2) \<Rightarrow> (Inr (), print Prune_completed w2))))))"

section \<open>Notions the properties are stated with\<close>

definition after_first_at :: "string \<Rightarrow> string" where
  \<comment> \<open>the substring of a full name after its first \<open>@\<close>\<close>
  "after_first_at full = tl (dropWhile (\<lambda>c. c \<noteq> CHR ''@'') full)"

definition query_request :: "string option \<Rightarrow> json" where
  \<comment> \<open>the one request \<open>prune_snapshots\<close> sends before its loops\<close>
  "query_request dset = envelope ''pool.snapshot.query'' (query_params dset) 3"

fun delete_requests :: "entry list \<Rightarrow> int \<Rightarrow> json list" where
  \<comment> \<open>one delete request per entry, in the entries' order, numbered from \<open>req_id\<close>\<close>
  "delete_requests [] req_id = []"
| "delete_requests ((created, shortname, snap_id) # ts) req_id =
     envelope ''pool.snapshot.delete'' [snap_id] req_id # delete_requests ts (req_id + 1)"

definition is_request :: "string \<Rightarrow> json \<Rightarrow> bool" where
  \<comment> \<open>a request for the remote method \<open>name\<close>\<close>
  "is_request name m = (py_getitem m ''method'' = Inr (JStr name))"

definition requests_since :: "world \<Rightarrow> world \<Rightarrow> json list" where
  \<comment> \<open>the requests sent between the state \<open>w\<close> and the later state \<open>w'\<close>\<close>
  "requests_since w w' = drop (length (sent w)) (sent w')"

definition other_prefix :: "string \<Rightarrow> json \<Rightarrow> bool" where
  \<comment> \<open>a record with a shortname, and one that does not start with the prefix\<close>
  "other_prefix p snap =
     (case derive_shortname snap of Inl e \<Rightarrow> False | Inr shortname \<Rightarrow> \<not> startswith shortname p)"

fun deleting_lines :: "entry list \<Rightarrow> event list" where
  "deleting_lines [] = []"
| "deleting_lines ((created, shortname, snap_id) # ts) = Deleting shortname # deleting_lines ts"

subsection \<open>The records of the scenario\<close>

definition snapshot_record :: "string \<Rightarrow> string \<Rightarrow> string \<Rightarrow> json" where
  \<comment> \<open>a record of the query's result, as far as the pruner reads it; the appliance
      uses the full name as the identifier\<close>
  "snapshot_record dset shortname raw =
     JObj [(''id'', JStr (dset @ ''@'' @ shortname)),
           (''name'', JStr (dset @ ''@'' @ shortname)),
           (''properties'', JObj [(''creation'', JObj [(''rawvalue'', JStr raw)])])]"

definition scenario_snapshots :: "json list" where
  "scenario_snapshots =
     [snapshot_record ''tank'' ''backup-A'' ''100'',
      snapshot_record ''tank'' ''backup-B'' ''300'',
      snapshot_record ''tank'' ''other-C'' ''500'',
      snapshot_record ''tank'' ''backup-D'' ''200'']"

definition entry_A :: entry where "entry_A = (100, ''backup-A'', JStr ''tank@backup-A'')"
definition entry_B :: entry where "entry_B = (300, ''backup-B'', JStr ''tank@backup-B'')"
definition entry_D :: entry where "entry_D = (200, ''backup-D'', JStr ''tank@backup-D'')"

definition scenario_peer :: peer where
  \<comment> \<open>an appliance that answers every request with the scenario's records, and with an
      error beside them\<close>
  "scenario_peer msgs =
     Inr (JObj [(''result'', JArr scenario_snapshots), (''error'', JStr ''EBUSY'')])"

definition world0 :: world where
  "world0 = \<lparr>sent = [], out = []\<rparr>"

section \<open>The program\<close>

record args =
  snapname :: string
  dataset :: "string option"
  host :: "string option"
  token :: "string option"
  prune :: "int option"
  prefix :: string

definition url_of :: "string option \<Rightarrow> string" where
  \<comment> \<open>\<^verbatim>\<open>f"wss://{host}/api/current"\<close>\<close>
  "url_of h = ''wss://'' @ (case h of None \<Rightarrow> ''None'' | Some s \<Rightarrow> s) @ ''/api/current''"

definition ws_connect :: "(string \<Rightarrow> error + peer) \<Rightarrow> string option \<Rightarrow> error + peer" where
  \<comment> \<open>\<open>net\<close> stands for \<^verbatim>\<open>websocket.create_connection\<close>: it raises or gives a connection\<close>
  "ws_connect net h = net (url_of h)"

definition main :: "(string \<Rightarrow> error + peer) \<Rightarrow> args \<Rightarrow> world \<Rightarrow> (error + unit) \<times> world" where
  \<comment> \<open>\<^verbatim>\<open>if args.prune:\<close> holds for an int other than 0, and fails for \<open>None\<close> and for 0\<close>
  "main net a w =
     (case ws_connect net (host a) of
        Inl e \<Rightarrow> (Inl e, w)
      | Inr ws \<Rightarrow>
          (case login ws (token a) w of
             (Inl e, w1) \<Rightarrow> (Inl e, w1)
           | (Inr u, w1) \<Rightarrow>
               (case create_snapshot ws (dataset a) (snapname a) w1 of
                  (Inl e, w2) \<Rightarrow> (Inl e, w2)
                | (Inr u', w2) \<Rightarrow>
                    (case prune a of
                       None \<Rightarrow> (Inr (), w2)
                     | Some keep \<Rightarrow>
                         if keep \<noteq> 0 then prune_snapshots ws (dataset a) keep (prefix a) w2
                         else (Inr (), w2)))))"

definition exit_status :: "error + unit \<Rightarrow> int" where
  \<comment> \<open>the status the interpreter exits with: 0 at the end of \<open>main\<close>, the argument of
      \<^verbatim>\<open>sys.exit\<close>, 1 for an exception nobody catches\<close>
  "exit_status r = (case r of Inr u \<Rightarrow> 0 | Inl (SystemExit n) \<Rightarrow> n | Inl e \<Rightarrow> 1)"

subsection \<open>Concrete runs\<close>

text \<open>
  Appliances, records and arguments at which the theorems below are instantiated. A
  connection function \<open>\<lambda>url. Inr ws\<close> connects to the appliance \<open>ws\<close> whatever the URL.
\<close>

definition nameless_record :: json where
  "nameless_record = JObj [(''id'', JStr ''tank''), (''name'', JStr ''tank'')]"

definition nameless_peer :: peer where
  "nameless_peer msgs =
     Inr (JObj [(''result'', JArr [snapshot_record ''tank'' ''other-C'' ''500'', nameless_record,
                                   snapshot_record ''tank'' ''backup-A'' ''100''])])"

definition failing_create_peer :: peer where
  "failing_create_peer msgs =
     (if length msgs = 1 then Inr (JObj [(''result'', JBool True)])
      else Inr (JObj [(''error'', JStr ''EEXIST'')]))"

definition sample_args :: "int option \<Rightarrow> args" where
  "sample_args n =
     \<lparr>snapname = ''backup-E'', dataset = Some ''tank'', host = Some ''nas'',
      token = Some ''key'', prune = n, prefix = ''backup-''\<rparr>"

definition obliging_peer :: peer where
  "obliging_peer msgs =
     Inr (JObj [(''result'', JObj [(''id'', JStr ''tank@backup-E'')])])"

definition plain_peer :: peer where
  "plain_peer msgs =
     (if length msgs = 1 then Inr (JObj [(''result'', JArr scenario_snapshots)])
      else Inr (JObj [(''result'', JBool True)]))"

definition pruned_peer :: peer where
  \<comment> \<open>\<open>plain_peer\<close>, but with the query result cleared of records of another prefix\<close>
  "pruned_peer msgs =
     (if msgs = [query_request (Some ''tank'')]
      then Inr (JObj [(''result'',
                       JArr (filter (\<lambda>s. \<not> other_prefix ''backup-'' s) scenario_snapshots))])
      else plain_peer msgs)"

section \<open>Requests and replies\<close>

lemma ws_call_eq:
  "ws_call ws m p n w =
     (ws (sent w @ [envelope m p n]), w\<lparr>sent := sent w @ [envelope m p n]\<rparr>)"
  by (simp add: ws_call_def Let_def)

lemma envelope_method: "py_getitem (envelope m p n) ''method'' = Inr (JStr m)"
  by (simp add: envelope_def)

lemma envelope_params: "py_getitem (envelope m p n) ''params'' = Inr (JArr p)"
  by (simp add: envelope_def)

lemma login_sent:
  "login ws tok w = (r, w') \<Longrightarrow>
   sent w' = sent w @ [envelope ''auth.login_with_api_key'' [opt_str tok] 1]"
  by (auto simp: login_def ws_call_eq print_def split: sum.splits bool.splits)

lemma create_sent:
  "create_snapshot ws dset name w = (r, w') \<Longrightarrow>
   sent w' = sent w @ [envelope ''pool.snapshot.create'' (create_params dset name) 2]"
  by (auto simp: create_snapshot_def ws_call_eq print_def split: sum.splits bool.splits)

section \<open>Deriving the shortname\<close>

lemma split_on_absent: "sep \<notin> set s \<Longrightarrow> split_on sep s = [s]"
  by (induction s) auto

lemma split_on_present:
  "sep \<in> set s \<Longrightarrow>
   split_on sep s = takeWhile (\<lambda>c. c \<noteq> sep) s # split_on sep (tl (dropWhile (\<lambda>c. c \<noteq> sep) s))"
  by (induction s) (auto simp: split_on_absent split: list.splits)

lemma split_on_nonempty: "split_on sep s \<noteq> []"
  by (induction s) (auto split: list.splits)

lemma split_on_hd: "hd (split_on sep s) = takeWhile (\<lambda>c. c \<noteq> sep) s"
  by (induction s) (auto split: list.splits simp: split_on_nonempty)

lemma split_on_second:
  assumes "sep \<in> set s"
  shows "py_index (split_on sep s) (Suc 0) = Inr (takeWhile (\<lambda>c. c \<noteq> sep) (tl (dropWhile (\<lambda>c. c \<noteq> sep) s)))"
proof -
  let ?rest = "tl (dropWhile (\<lambda>c. c \<noteq> sep) s)"
  have "split_on sep ?rest \<noteq> []" by (rule split_on_nonempty)
  then obtain p ps where ps: "split_on sep ?rest = p # ps" by (cases "split_on sep ?rest") auto
  with split_on_hd [of sep ?rest] have "p = takeWhile (\<lambda>c. c \<noteq> sep) ?rest" by simp
  with ps split_on_present [OF assms] show ?thesis by (simp add: py_index_def)
qed

lemma derive_shortname_no_at:
  assumes "py_getitem snap ''name'' = Inr (JStr full)" and "CHR ''@'' \<notin> set full"
  shows "derive_shortname snap = Inl IndexError"
  using assms by (simp add: derive_shortname_def split_on_absent py_index_def)

text \<open>
  C2, as amended. For a record whose name is a string with an \<open>@\<close> in it, the shortname
  the pruner derives is the part of the full name between the first \<open>@\<close> and the next one
  (or the end of the name). It is the whole substring after the first \<open>@\<close> exactly when
  that substring has no \<open>@\<close> of its own.
\<close>

theorem shortname_between_ats:
  assumes "py_getitem snap ''name'' = Inr (JStr full)" and "CHR ''@'' \<in> set full"
  shows "derive_shortname snap = Inr (takeWhile (\<lambda>c. c \<noteq> CHR ''@'') (after_first_at full))
       \<and> (derive_shortname snap = Inr (after_first_at full)
            \<longleftrightarrow> CHR ''@'' \<notin> set (after_first_at full))"
proof -
  have 1: "derive_shortname snap = Inr (takeWhile (\<lambda>c. c \<noteq> CHR ''@'') (after_first_at full))"
    using assms by (simp add: derive_shortname_def after_first_at_def split_on_second)
  have "takeWhile (\<lambda>c. c \<noteq> CHR ''@'') (after_first_at full) = after_first_at full
          \<longleftrightarrow> CHR ''@'' \<notin> set (after_first_at full)"
    by (auto simp: takeWhile_eq_all_conv)
  with 1 show ?thesis by simp
qed

text \<open>
  The amended C2 at two names: one with two \<open>@\<close>, one with a single \<open>@\<close>.
\<close>

theorem shortname_between_ats_witness:
  "derive_shortname (JObj [(''name'', JStr ''tank@backup-1@x'')]) = Inr ''backup-1''
   \<and> derive_shortname (JObj [(''name'', JStr ''tank@backup-1'')]) = Inr (after_first_at ''tank@backup-1'')"
  using shortname_between_ats [of "JObj [(''name'', JStr ''tank@backup-1@x'')]" "''tank@backup-1@x''"]
        shortname_between_ats [of "JObj [(''name'', JStr ''tank@backup-1'')]" "''tank@backup-1''"]
  by (simp add: after_first_at_def)

text \<open>
  C2 as it is stated fails for a name with two \<open>@\<close>: of \<^verbatim>\<open>tank@a@b\<close> the pruner keeps
  \<^verbatim>\<open>a\<close>, while the substring after the first \<open>@\<close> is \<^verbatim>\<open>a@b\<close>.
\<close>

theorem shortname_not_whole_rest:
  "derive_shortname (JObj [(''name'', JStr ''tank@a@b'')]) = Inr ''a''
   \<and> after_first_at ''tank@a@b'' = ''a@b''"
  by (simp add: derive_shortname_def py_index_def after_first_at_def)

section \<open>The two loops\<close>

lemma snap_entry_SomeD:
  "snap_entry p snap = Inr (Some (c, s, i)) \<Longrightarrow>
   derive_shortname snap = Inr s \<and> startswith s p \<and> creation_of snap = Inr c
   \<and> py_getitem snap ''id'' = Inr i"
  by (auto simp: snap_entry_def split: sum.splits if_splits)

lemma filter_loop_sound:
  "filter_loop p snaps acc = Inr filtered \<Longrightarrow> t \<in> set filtered \<Longrightarrow>
   t \<in> set acc \<or> (\<exists>snap \<in> set snaps. snap_entry p snap = Inr (Some t))"
proof (induction snaps arbitrary: acc)
  case Nil
  then show ?case by simp
next
  case (Cons snap snaps)
  show ?case
  proof (cases "snap_entry p snap")
    case (Inl e)
    with Cons.prems show ?thesis by simp
  next
    case (Inr v)
    show ?thesis
    proof (cases v)
      case None
      with Inr Cons.prems have "filter_loop p snaps acc = Inr filtered" by simp
      from Cons.IH [OF this Cons.prems(2)] show ?thesis by auto
    next
      case (Some u)
      with Inr Cons.prems have "filter_loop p snaps (acc @ [u]) = Inr filtered" by simp
      from Cons.IH [OF this Cons.prems(2)] Inr Some show ?thesis by auto
    qed
  qed
qed

lemma filter_loop_append:
  "filter_loop p (xs @ ys) acc =
     (case filter_loop p xs acc of Inl e \<Rightarrow> Inl e | Inr acc' \<Rightarrow> filter_loop p ys acc')"
  by (induction xs arbitrary: acc) (auto split: sum.splits option.splits)

lemma filter_loop_skip:
  "filter_loop p (filter (\<lambda>s. \<not> other_prefix p s) snaps) acc = filter_loop p snaps acc"
proof (induction snaps arbitrary: acc)
  case Nil
  then show ?case by simp
next
  case (Cons snap snaps)
  show ?case
  proof (cases "other_prefix p snap")
    case True
    then have "snap_entry p snap = Inr None"
      by (auto simp: other_prefix_def snap_entry_def split: sum.splits)
    with True Cons.IH show ?thesis by simp
  next
    case False
    with Cons.IH show ?thesis by (simp split: sum.splits option.splits)
  qed
qed

lemma delete_loop_sent:
  "delete_loop ws ts n w = (r, w') \<Longrightarrow> \<exists>k. sent w' = sent w @ delete_requests (take k ts) n"
proof (induction ts arbitrary: n w)
  case Nil
  then show ?case by simp
next
  case (Cons t ts)
  obtain c s i where t: "t = (c, s, i)" by (cases t) auto
  let ?w1 = "(print (Deleting s) w)\<lparr>sent := sent w @ [envelope ''pool.snapshot.delete'' [i] n]\<rparr>"
  show ?case
  proof (cases "ws (sent w @ [envelope ''pool.snapshot.delete'' [i] n])")
    case (Inl e)
    with Cons.prems t have "sent w' = sent w @ delete_requests (take 1 (t # ts)) n"
      by (auto simp: ws_call_eq print_def)
    then show ?thesis by blast
  next
    case (Inr resp)
    with Cons.prems t have "delete_loop ws ts (n + 1) ?w1 = (r, w')"
      by (simp add: ws_call_eq print_def)
    from Cons.IH [OF this] obtain k where "sent w' = sent ?w1 @ delete_requests (take k ts) (n + 1)"
      by blast
    with t have "sent w' = sent w @ delete_requests (take (Suc k) (t # ts)) n"
      by (simp add: print_def)
    then show ?thesis by blast
  qed
qed

lemma delete_requests_mem:
  "m \<in> set (delete_requests ts n) \<Longrightarrow>
   \<exists>c s i k. (c, s, i) \<in> set ts \<and> m = envelope ''pool.snapshot.delete'' [i] k"
proof (induction ts arbitrary: n)
  case Nil
  then show ?case by simp
next
  case (Cons t ts)
  obtain c s i where t: "t = (c, s, i)" by (cases t) auto
  from Cons.prems t
  consider "m = envelope ''pool.snapshot.delete'' [i] n" | "m \<in> set (delete_requests ts (n + 1))"
    by auto
  then show ?case
  proof cases
    case 1
    with t show ?thesis by auto
  next
    case 2
    from Cons.IH [OF this] show ?thesis by auto
  qed
qed

lemma delete_loop_no_raise:
  assumes "\<And>msgs. \<exists>resp. ws msgs = Inr resp"
  shows "delete_loop ws ts n w =
     (Inr (), \<lparr>sent = sent w @ delete_requests ts n, out = out w @ deleting_lines ts\<rparr>)"
proof (induction ts arbitrary: n w)
  case Nil
  then show ?case by simp
next
  case (Cons t ts)
  obtain c s i where t: "t = (c, s, i)" by (cases t) auto
  from assms obtain resp where "ws (sent w @ [envelope ''pool.snapshot.delete'' [i] n]) = Inr resp"
    by blast
  with t Cons.IH show ?case by (simp add: ws_call_eq print_def)
qed

section \<open>Sorting and slicing\<close>

lemma set_sort_newest_first: "set (sort_newest_first xs) = set xs"
  by (simp add: sort_newest_first_def)

lemma set_py_slice_from: "set (py_slice_from k xs) \<subseteq> set xs"
  by (simp add: py_slice_from_def Let_def set_drop_subset)

lemma py_slices_append: "py_slice_to k xs @ py_slice_from k xs = xs"
  by (simp add: py_slice_to_def py_slice_from_def Let_def)

lemma py_slice_to_length_nonneg:
  "0 \<le> k \<Longrightarrow> length (py_slice_to k xs) = min (nat k) (length xs)"
  by (auto simp: py_slice_to_def Let_def min_def)

lemma py_slice_from_zero: "py_slice_from 0 xs = xs"
  by (simp add: py_slice_from_def)

lemma py_slice_from_all: "int (length xs) \<le> k \<Longrightarrow> py_slice_from k xs = []"
  by (auto simp: py_slice_from_def Let_def)

text \<open>
  C6. Whatever the matching records are, the sorted sequence is non-increasing in creation
  time (newest first). The sort only rearranges the records, entries of equal creation
  time keep the order of the query result, so the sequence is a function of the input
  alone, and sorting a sorted sequence again changes nothing.
\<close>

theorem newest_first_sorted:
  "sorted_wrt (\<lambda>x y. fst x \<ge> fst y) (sort_newest_first filtered)
   \<and> mset (sort_newest_first filtered) = mset filtered
   \<and> (\<forall>t. filter (\<lambda>x. fst x = t) (sort_newest_first filtered) = filter (\<lambda>x. fst x = t) filtered)
   \<and> sort_newest_first (sort_newest_first filtered) = sort_newest_first filtered"
proof -
  have s: "sorted (map (\<lambda>x. - fst x) (sort_newest_first filtered))"
    by (simp add: sort_newest_first_def)
  then have 1: "sorted_wrt (\<lambda>x y. fst x \<ge> fst y) (sort_newest_first filtered)"
    by (simp add: sorted_map)
  have 2: "mset (sort_newest_first filtered) = mset filtered"
    by (simp add: sort_newest_first_def)
  have 3: "filter (\<lambda>x. fst x = t) (sort_newest_first filtered) = filter (\<lambda>x. fst x = t) filtered"
    for t
    using sort_key_stable [of "\<lambda>x. - fst x" "- t" filtered]
    by (simp add: sort_newest_first_def)
  have 4: "sort_newest_first (sort_newest_first filtered) = sort_newest_first filtered"
    using s sort_key_id_if_sorted [of "\<lambda>x. - fst x" "sort_newest_first filtered"]
    by (simp add: sort_newest_first_def)
  from 1 2 3 4 show ?thesis by blast
qed

section \<open>A pruning pass\<close>

lemma prune_snapshots_sent:
  assumes "prune_snapshots ws dset keep p w = (r, w')"
  shows "sent w' = sent w @ [query_request dset]
       \<or> (\<exists>resp result snapshots filtered k.
             ws (sent w @ [query_request dset]) = Inr resp
           \<and> py_get resp ''result'' (JArr []) = Inr result
           \<and> py_iter result = Inr snapshots
           \<and> filter_loop p snapshots [] = Inr filtered
           \<and> sent w' = sent w @ query_request dset
                 # delete_requests (take k (py_slice_from keep (sort_newest_first filtered))) 10)"
proof -
  let ?w1 = "(print (Pruning_snapshots keep p) w)\<lparr>sent := sent w @ [query_request dset]\<rparr>"
  show ?thesis
  proof (cases "ws (sent w @ [query_request dset])")
    case (Inl e)
    with assms show ?thesis
      by (auto simp: prune_snapshots_def ws_call_eq print_def query_request_def)
  next
    case resp: (Inr resp)
    show ?thesis
    proof (cases "py_get resp ''result'' (JArr [])")
      case (Inl e)
      with assms resp show ?thesis
        by (auto simp: prune_snapshots_def ws_call_eq print_def query_request_def)
    next
      case result: (Inr result)
      show ?thesis
      proof (cases "py_iter result")
        case (Inl e)
        with assms resp result show ?thesis
          by (auto simp: prune_snapshots_def ws_call_eq print_def query_request_def)
      next
        case snaps: (Inr snapshots)
        show ?thesis
        proof (cases "filter_loop p snapshots []")
          case (Inl e)
          with assms resp result snaps show ?thesis
            by (auto simp: prune_snapshots_def ws_call_eq print_def query_request_def)
        next
          case filtered: (Inr filtered)
          let ?doomed = "py_slice_from keep (sort_newest_first filtered)"
          obtain r2 w2 where dl: "delete_loop ws ?doomed 10 ?w1 = (r2, w2)"
            by (cases "delete_loop ws ?doomed 10 ?w1") auto
          from delete_loop_sent [OF dl] obtain k
            where k: "sent w2 = sent ?w1 @ delete_requests (take k ?doomed) 10" by blast
          from assms resp result snaps filtered dl have "sent w' = sent w2"
            by (auto simp: prune_snapshots_def ws_call_eq print_def query_request_def
                     split: sum.splits)
          with k have "sent w' = sent w @ query_request dset # delete_requests (take k ?doomed) 10"
            by (simp add: print_def)
          with resp result snaps filtered show ?thesis by blast
        qed
      qed
    qed
  qed
qed

lemma prune_snapshots_run:
  assumes "ws (sent w @ [query_request dset]) = Inr resp"
      and "py_get resp ''result'' (JArr []) = Inr result"
      and "py_iter result = Inr snapshots"
      and "filter_loop p snapshots [] = Inr filtered"
  shows "prune_snapshots ws dset keep p w =
     (case delete_loop ws (py_slice_from keep (sort_newest_first filtered)) 10
             \<lparr>sent = sent w @ [query_request dset],
              out = out w @ [Pruning_snapshots keep p]\<rparr> of
        (Inl e, w2) \<Rightarrow> (Inl e, w2)
      | (Inr u, w2) \<Rightarrow> (Inr (), print Prune_completed w2))"
  using assms by (cases w) (simp add: prune_snapshots_def ws_call_eq print_def query_request_def)

lemma prune_snapshots_filter_error:
  assumes "ws (sent w @ [query_request dset]) = Inr resp"
      and "py_get resp ''result'' (JArr []) = Inr result"
      and "py_iter result = Inr snapshots"
      and "filter_loop p snapshots [] = Inl e"
  shows "prune_snapshots ws dset keep p w =
     (Inl e, \<lparr>sent = sent w @ [query_request dset],
              out = out w @ [Pruning_snapshots keep p]\<rparr>)"
  using assms by (cases w) (simp add: prune_snapshots_def ws_call_eq print_def query_request_def)

lemma deletes_for_matching:
  assumes "prune_snapshots ws dset keep p w = (r, w')"
      and "m \<in> set (requests_since w w')"
      and "is_request ''pool.snapshot.delete'' m"
  shows "\<exists>resp result snapshots snap shortname snap_id.
            ws (sent w @ [query_request dset]) = Inr resp
          \<and> py_get resp ''result'' (JArr []) = Inr result
          \<and> py_iter result = Inr snapshots
          \<and> snap \<in> set snapshots
          \<and> derive_shortname snap = Inr shortname
          \<and> startswith shortname p
          \<and> py_getitem snap ''id'' = Inr snap_id
          \<and> py_getitem m ''params'' = Inr (JArr [snap_id])"
proof -
  have notq: "\<not> is_request ''pool.snapshot.delete'' (query_request dset)"
    by (simp add: is_request_def query_request_def envelope_method)
  from prune_snapshots_sent [OF assms(1)] assms(2,3) notq
  obtain resp result snapshots filtered k where
    resp: "ws (sent w @ [query_request dset]) = Inr resp"
    and result: "py_get resp ''result'' (JArr []) = Inr result"
    and snaps: "py_iter result = Inr snapshots"
    and filtered: "filter_loop p snapshots [] = Inr filtered"
    and sent: "sent w' = sent w @ query_request dset
                 # delete_requests (take k (py_slice_from keep (sort_newest_first filtered))) 10"
    by (auto simp: requests_since_def)
  let ?doomed = "py_slice_from keep (sort_newest_first filtered)"
  from sent assms(2,3) notq have "m \<in> set (delete_requests (take k ?doomed) 10)"
    by (auto simp: requests_since_def)
  from delete_requests_mem [OF this] obtain c s i n
    where t: "(c, s, i) \<in> set (take k ?doomed)" and m: "m = envelope ''pool.snapshot.delete'' [i] n"
    by blast
  from t have "(c, s, i) \<in> set ?doomed" by (rule in_set_takeD)
  with set_py_slice_from [of keep "sort_newest_first filtered"]
  have "(c, s, i) \<in> set filtered" by (auto simp: set_sort_newest_first)
  from filter_loop_sound [OF filtered this] obtain snap
    where snap: "snap \<in> set snapshots" and entry: "snap_entry p snap = Inr (Some (c, s, i))"
    by auto
  from snap_entry_SomeD [OF entry] m
  have "derive_shortname snap = Inr s \<and> startswith s p \<and> py_getitem snap ''id'' = Inr i
      \<and> py_getitem m ''params'' = Inr (JArr [i])"
    by (simp add: envelope_params)
  with resp result snaps snap show ?thesis by blast
qed

lemma delete_loop_agree:
  "(\<And>h. length (sent w) < length h \<Longrightarrow> ws' h = ws h) \<Longrightarrow>
   delete_loop ws' ts n w = delete_loop ws ts n w"
proof (induction ts arbitrary: n w)
  case Nil
  then show ?case by simp
next
  case (Cons t ts)
  obtain c s i where t: "t = (c, s, i)" by (cases t) auto
  let ?h = "sent w @ [envelope ''pool.snapshot.delete'' [i] n]"
  let ?w1 = "(print (Deleting s) w)\<lparr>sent := ?h\<rparr>"
  have same: "ws' ?h = ws ?h" by (rule Cons.prems) simp
  have "delete_loop ws' ts (n + 1) ?w1 = delete_loop ws ts (n + 1) ?w1"
  proof (rule Cons.IH)
    fix h :: "json list"
    assume "length (sent ?w1) < length h"
    then have "length (sent w) < length h" by simp
    then show "ws' h = ws h" by (rule Cons.prems)
  qed
  with t same show ?case by (simp add: ws_call_eq print_def split: sum.splits)
qed

lemma prune_snapshots_without_others:
  assumes "ws (sent w @ [query_request dset]) = Inr resp"
      and "py_get resp ''result'' (JArr []) = Inr result"
      and "py_iter result = Inr snapshots"
      and "ws' (sent w @ [query_request dset]) = Inr resp'"
      and "py_get resp' ''result'' (JArr []) = Inr result'"
      and "py_iter result' = Inr (filter (\<lambda>s. \<not> other_prefix p s) snapshots)"
      and "\<And>h. h \<noteq> sent w @ [query_request dset] \<Longrightarrow> ws' h = ws h"
  shows "prune_snapshots ws' dset keep p w = prune_snapshots ws dset keep p w"
proof (cases "filter_loop p snapshots []")
  case (Inl e)
  then have "filter_loop p (filter (\<lambda>s. \<not> other_prefix p s) snapshots) [] = Inl e"
    by (simp add: filter_loop_skip)
  from prune_snapshots_filter_error
         [of ws' w dset resp' result' "filter (\<lambda>s. \<not> other_prefix p s) snapshots" p e keep,
          OF assms(4-6) this]
       prune_snapshots_filter_error [of ws w dset resp result snapshots p e keep, OF assms(1-3) Inl]
  show ?thesis by simp
next
  case (Inr filtered)
  then have f': "filter_loop p (filter (\<lambda>s. \<not> other_prefix p s) snapshots) [] = Inr filtered"
    by (simp add: filter_loop_skip)
  let ?w1 = "\<lparr>sent = sent w @ [query_request dset],
              out = out w @ [Pruning_snapshots keep p]\<rparr>"
  have "delete_loop ws' (py_slice_from keep (sort_newest_first filtered)) 10 ?w1
          = delete_loop ws (py_slice_from keep (sort_newest_first filtered)) 10 ?w1"
  proof (rule delete_loop_agree)
    fix h :: "json list"
    assume "length (sent ?w1) < length h"
    then have "h \<noteq> sent w @ [query_request dset]" by auto
    then show "ws' h = ws h" by (rule assms(7))
  qed
  with prune_snapshots_run
         [of ws' w dset resp' result' "filter (\<lambda>s. \<not> other_prefix p s) snapshots" p filtered keep,
          OF assms(4-6) f']
       prune_snapshots_run [of ws w dset resp result snapshots p filtered keep, OF assms(1-3) Inr]
  show ?thesis by simp
qed

text \<open>
  C1. Whatever the appliance answers and whatever \<open>keep\<close> is, every delete request of a
  pruning pass carries the identifier of a record of the query result whose shortname
  starts with the prefix. And records whose shortname does not start with the prefix
  play no part in the pass: against an appliance that leaves them out of the query
  result and otherwise answers alike, the pass sends the same requests, prints the same
  lines and ends the same way, for the first loop appends nothing for them.
\<close>

theorem deletes_only_matching:
  "(\<forall>r w' m.
       prune_snapshots ws dset keep p w = (r, w')
     \<and> m \<in> set (requests_since w w')
     \<and> is_request ''pool.snapshot.delete'' m
     \<longrightarrow> (\<exists>resp result snapshots snap shortname snap_id.
            ws (sent w @ [query_request dset]) = Inr resp
          \<and> py_get resp ''result'' (JArr []) = Inr result
          \<and> py_iter result = Inr snapshots
          \<and> snap \<in> set snapshots
          \<and> derive_shortname snap = Inr shortname
          \<and> startswith shortname p
          \<and> py_getitem snap ''id'' = Inr snap_id
          \<and> py_getitem m ''params'' = Inr (JArr [snap_id])))
   \<and> (\<forall>ws' resp result snapshots resp' result'.
         ws (sent w @ [query_request dset]) = Inr resp
       \<and> py_get resp ''result'' (JArr []) = Inr result
       \<and> py_iter result = Inr snapshots
       \<and> ws' (sent w @ [query_request dset]) = Inr resp'
       \<and> py_get resp' ''result'' (JArr []) = Inr result'
       \<and> py_iter result' = Inr (filter (\<lambda>s. \<not> other_prefix p s) snapshots)
       \<and> (\<forall>h. h \<noteq> sent w @ [query_request dset] \<longrightarrow> ws' h = ws h)
       \<longrightarrow> prune_snapshots ws' dset keep p w = prune_snapshots ws dset keep p w)
   \<and> filter_loop p (filter (\<lambda>s. \<not> other_prefix p s) snaps) acc = filter_loop p snaps acc"
proof (intro conjI allI impI)
  fix r w' m
  assume "prune_snapshots ws dset keep p w = (r, w')
     \<and> m \<in> set (requests_since w w')
     \<and> is_request ''pool.snapshot.delete'' m"
  then show "\<exists>resp result snapshots snap shortname snap_id.
            ws (sent w @ [query_request dset]) = Inr resp
          \<and> py_get resp ''result'' (JArr []) = Inr result
          \<and> py_iter result = Inr snapshots
          \<and> snap \<in> set snapshots
          \<and> derive_shortname snap = Inr shortname
          \<and> startswith shortname p
          \<and> py_getitem snap ''id'' = Inr snap_id
          \<and> py_getitem m ''params'' = Inr (JArr [snap_id])"
    using deletes_for_matching [of ws dset keep p w r w' m] by blast
next
  fix ws' resp result snapshots resp' result'
  assume h: "ws (sent w @ [query_request dset]) = Inr resp
       \<and> py_get resp ''result'' (JArr []) = Inr result
       \<and> py_iter result = Inr snapshots
       \<and> ws' (sent w @ [query_request dset]) = Inr resp'
       \<and> py_get resp' ''result'' (JArr []) = Inr result'
       \<and> py_iter result' = Inr (filter (\<lambda>s. \<not> other_prefix p s) snapshots)
       \<and> (\<forall>h. h \<noteq> sent w @ [query_request dset] \<longrightarrow> ws' h = ws h)"
  show "prune_snapshots ws' dset keep p w = prune_snapshots ws dset keep p w"
  proof (rule prune_snapshots_without_others)
    show "ws (sent w @ [query_request dset]) = Inr resp" using h by blast
    show "py_get resp ''result'' (JArr []) = Inr result" using h by blast
    show "py_iter result = Inr snapshots" using h by blast
    show "ws' (sent w @ [query_request dset]) = Inr resp'" using h by blast
    show "py_get resp' ''result'' (JArr []) = Inr result'" using h by blast
    show "py_iter result' = Inr (filter (\<lambda>s. \<not> other_prefix p s) snapshots)" using h by blast
    show "\<And>h. h \<noteq> sent w @ [query_request dset] \<Longrightarrow> ws' h = ws h" using h by blast
  qed
next
  show "filter_loop p (filter (\<lambda>s. \<not> other_prefix p s) snaps) acc = filter_loop p snaps acc"
    by (rule filter_loop_skip)
qed

text \<open>
  C10. A record whose name has no \<open>@\<close> is not skipped: deriving its shortname raises
  \<open>IndexError\<close>, and the pruning pass ends with an exception (this one, unless a record
  before it raised another) after the query and before any delete request or the
  completion notice.
\<close>

theorem name_without_at_aborts:
  assumes "ws (sent w @ [query_request dset]) = Inr resp"
      and "py_get resp ''result'' (JArr []) = Inr result"
      and "py_iter result = Inr (before @ snap # rest)"
      and "py_getitem snap ''name'' = Inr (JStr full)"
      and "CHR ''@'' \<notin> set full"
  shows "derive_shortname snap = Inl IndexError
       \<and> (\<exists>e. prune_snapshots ws dset keep p w =
                 (Inl e, \<lparr>sent = sent w @ [query_request dset],
                          out = out w @ [Pruning_snapshots keep p]\<rparr>)
              \<and> (e = IndexError \<or> filter_loop p before [] = Inl e))"
proof -
  have ds: "derive_shortname snap = Inl IndexError"
    using assms(4,5) by (rule derive_shortname_no_at)
  then have se: "snap_entry p snap = Inl IndexError" by (simp add: snap_entry_def)
  have "\<exists>e. filter_loop p (before @ snap # rest) [] = Inl e
           \<and> (e = IndexError \<or> filter_loop p before [] = Inl e)"
    using se by (cases "filter_loop p before []") (simp_all add: filter_loop_append)
  then obtain e where e: "filter_loop p (before @ snap # rest) [] = Inl e"
    and which: "e = IndexError \<or> filter_loop p before [] = Inl e" by blast
  from prune_snapshots_filter_error [of ws w dset resp result "before @ snap # rest" p e keep,
         OF assms(1-3) e] which ds
  show ?thesis by blast
qed

text \<open>
  C10 at a query result whose second record is named \<^verbatim>\<open>tank\<close>.
\<close>

theorem name_without_at_aborts_witness:
  "derive_shortname nameless_record = Inl IndexError
   \<and> prune_snapshots nameless_peer (Some ''tank'') 1 ''backup-'' world0 =
       (Inl IndexError, \<lparr>sent = [query_request (Some ''tank'')],
                         out = [Pruning_snapshots 1 ''backup-'']\<rparr>)"
proof -
  have b: "filter_loop ''backup-'' [snapshot_record ''tank'' ''other-C'' ''500''] [] = Inr []"
    by (simp add: snapshot_record_def snap_entry_def derive_shortname_def py_index_def
                  startswith_def)
  from name_without_at_aborts [of nameless_peer world0 "Some ''tank''" _ _
      "[snapshot_record ''tank'' ''other-C'' ''500'']" nameless_record
      "[snapshot_record ''tank'' ''backup-A'' ''100'']" "''tank''" 1 "''backup-''"] b
  show ?thesis
    by (simp add: nameless_peer_def nameless_record_def world0_def)
qed

text \<open>
  C8. When no round trip raises, the pass sends one delete request per doomed record, in
  the sorted order and numbered from 10, prints the completion notice and returns
  normally (exit status 0), whatever the replies to the delete requests hold: they are
  never looked at.
\<close>

theorem delete_replies_ignored:
  assumes "\<And>msgs. \<exists>reply. ws msgs = Inr reply"
      and "ws (sent w @ [query_request dset]) = Inr resp"
      and "py_get resp ''result'' (JArr []) = Inr result"
      and "py_iter result = Inr snapshots"
      and "filter_loop p snapshots [] = Inr filtered"
  shows "prune_snapshots ws dset keep p w =
     (Inr (),
      \<lparr>sent = sent w @ query_request dset
                # delete_requests (py_slice_from keep (sort_newest_first filtered)) 10,
       out = out w @ Pruning_snapshots keep p
                # deleting_lines (py_slice_from keep (sort_newest_first filtered))
                @ [Prune_completed]\<rparr>)
       \<and> exit_status (fst (prune_snapshots ws dset keep p w)) = 0"
  using prune_snapshots_run [of ws w dset resp result snapshots p filtered keep, OF assms(2-5)]
        delete_loop_no_raise [of ws, OF assms(1)]
  by (simp add: print_def exit_status_def)

section \<open>The scenario\<close>

lemma scenario_filtered:
  "filter_loop ''backup-'' scenario_snapshots [] = Inr [entry_A, entry_B, entry_D]"
  by (simp add: scenario_snapshots_def snapshot_record_def snap_entry_def derive_shortname_def
                creation_of_def py_index_def startswith_def py_int_def py_strip_def is_space_def
                py_unsigned_def is_digit_def digit_val_def entry_A_def entry_B_def entry_D_def)

lemma scenario_sorted:
  "sort_newest_first [entry_A, entry_B, entry_D] = [entry_B, entry_D, entry_A]"
  by (simp add: sort_newest_first_def entry_A_def entry_B_def entry_D_def)

lemma plain_peer_run:
  "prune_snapshots plain_peer (Some ''tank'') keep ''backup-'' world0 =
     (Inr (),
      \<lparr>sent = query_request (Some ''tank'')
                # delete_requests (py_slice_from keep [entry_B, entry_D, entry_A]) 10,
       out = Pruning_snapshots keep ''backup-''
                # deleting_lines (py_slice_from keep [entry_B, entry_D, entry_A])
                @ [Prune_completed]\<rparr>)"
proof -
  have nr: "\<And>msgs. \<exists>reply. plain_peer msgs = Inr reply" by (simp add: plain_peer_def)
  have q: "plain_peer (sent world0 @ [query_request (Some ''tank'')])
             = Inr (JObj [(''result'', JArr scenario_snapshots)])"
    by (simp add: plain_peer_def world0_def)
  from prune_snapshots_run [of plain_peer world0 "Some ''tank''"
         "JObj [(''result'', JArr scenario_snapshots)]" "JArr scenario_snapshots"
         scenario_snapshots "''backup-''" "[entry_A, entry_B, entry_D]" keep,
         OF q _ _ scenario_filtered]
       delete_loop_no_raise [of plain_peer, OF nr]
  show ?thesis by (simp add: scenario_sorted print_def world0_def)
qed

text \<open>
  C8 at an appliance that puts an \<open>error\<close> field into every reply: both deletions are
  requested and the pass completes.
\<close>

theorem delete_replies_ignored_witness:
  "prune_snapshots scenario_peer (Some ''tank'') 1 ''backup-'' world0 =
     (Inr (),
      \<lparr>sent = [query_request (Some ''tank''),
               envelope ''pool.snapshot.delete'' [JStr ''tank@backup-D''] 10,
               envelope ''pool.snapshot.delete'' [JStr ''tank@backup-A''] 11],
       out = [Pruning_snapshots 1 ''backup-'', Deleting ''backup-D'', Deleting ''backup-A'',
              Prune_completed]\<rparr>)
   \<and> py_contains ''error'' (projr (scenario_peer [])) = Inr True"
proof -
  have "py_slice_from 1 [entry_B, entry_D, entry_A] = [entry_D, entry_A]"
    by (simp add: py_slice_from_def)
  with delete_replies_ignored [of scenario_peer world0 "Some ''tank''" _ _ scenario_snapshots
         "''backup-''" "[entry_A, entry_B, entry_D]" 1] scenario_filtered scenario_sorted
  show ?thesis
    by (simp add: scenario_peer_def world0_def entry_A_def entry_D_def)
qed

text \<open>
  C1 at the scenario: the one delete request is for \<^verbatim>\<open>backup-A\<close>, and the pass is the same
  against an appliance that leaves \<^verbatim>\<open>other-C\<close> out of the query result.
\<close>

theorem deletes_only_matching_witness:
  "prune_snapshots plain_peer (Some ''tank'') 2 ''backup-'' world0 =
     (Inr (),
      \<lparr>sent = [query_request (Some ''tank''),
               envelope ''pool.snapshot.delete'' [JStr ''tank@backup-A''] 10],
       out = [Pruning_snapshots 2 ''backup-'', Deleting ''backup-A'', Prune_completed]\<rparr>)
   \<and> (\<exists>snap shortname snap_id.
          snap \<in> set scenario_snapshots
        \<and> derive_shortname snap = Inr shortname
        \<and> startswith shortname ''backup-''
        \<and> py_getitem snap ''id'' = Inr snap_id
        \<and> py_getitem (envelope ''pool.snapshot.delete'' [JStr ''tank@backup-A''] 10) ''params''
            = Inr (JArr [snap_id]))
   \<and> filter (\<lambda>s. \<not> other_prefix ''backup-'' s) scenario_snapshots =
       [snapshot_record ''tank'' ''backup-A'' ''100'', snapshot_record ''tank'' ''backup-B'' ''300'',
        snapshot_record ''tank'' ''backup-D'' ''200'']
   \<and> prune_snapshots pruned_peer (Some ''tank'') 2 ''backup-'' world0 =
       prune_snapshots plain_peer (Some ''tank'') 2 ''backup-'' world0
   \<and> filter_loop ''backup-'' (filter (\<lambda>s. \<not> other_prefix ''backup-'' s) scenario_snapshots) []
       = filter_loop ''backup-'' scenario_snapshots []"
proof -
  let ?m = "envelope ''pool.snapshot.delete'' [JStr ''tank@backup-A''] 10"
  let ?w' = "\<lparr>sent = [query_request (Some ''tank''), ?m],
              out = [Pruning_snapshots 2 ''backup-'', Deleting ''backup-A'', Prune_completed]\<rparr>"
  let ?kept = "filter (\<lambda>s. \<not> other_prefix ''backup-'' s) scenario_snapshots"
  note inst = deletes_only_matching [of plain_peer "Some ''tank''" 2 "''backup-''" world0
                                       scenario_snapshots "[]"]
  have run: "prune_snapshots plain_peer (Some ''tank'') 2 ''backup-'' world0 = (Inr (), ?w')"
    using plain_peer_run [of 2] by (simp add: py_slice_from_def entry_A_def)
  have mem: "?m \<in> set (requests_since world0 ?w')"
    by (simp add: requests_since_def world0_def)
  have del: "is_request ''pool.snapshot.delete'' ?m"
    by (simp add: is_request_def envelope_method)
  from inst run mem del
  have "\<exists>resp result snapshots snap shortname snap_id.
            plain_peer (sent world0 @ [query_request (Some ''tank'')]) = Inr resp
          \<and> py_get resp ''result'' (JArr []) = Inr result
          \<and> py_iter result = Inr snapshots
          \<and> snap \<in> set snapshots
          \<and> derive_shortname snap = Inr shortname
          \<and> startswith shortname ''backup-''
          \<and> py_getitem snap ''id'' = Inr snap_id
          \<and> py_getitem ?m ''params'' = Inr (JArr [snap_id])"
    by blast
  then have part1: "\<exists>snap shortname snap_id.
          snap \<in> set scenario_snapshots
        \<and> derive_shortname snap = Inr shortname
        \<and> startswith shortname ''backup-''
        \<and> py_getitem snap ''id'' = Inr snap_id
        \<and> py_getitem ?m ''params'' = Inr (JArr [snap_id])"
    by (simp add: plain_peer_def world0_def)
  have kept: "?kept =
       [snapshot_record ''tank'' ''backup-A'' ''100'', snapshot_record ''tank'' ''backup-B'' ''300'',
        snapshot_record ''tank'' ''backup-D'' ''200'']"
    by (simp add: scenario_snapshots_def other_prefix_def snapshot_record_def
                  derive_shortname_def py_index_def startswith_def)
  have q: "plain_peer (sent world0 @ [query_request (Some ''tank'')])
             = Inr (JObj [(''result'', JArr scenario_snapshots)])"
    by (simp add: plain_peer_def world0_def)
  have q': "pruned_peer (sent world0 @ [query_request (Some ''tank'')])
             = Inr (JObj [(''result'', JArr ?kept)])"
    by (simp add: pruned_peer_def world0_def)
  have rest: "\<forall>h. h \<noteq> sent world0 @ [query_request (Some ''tank'')] \<longrightarrow> pruned_peer h = plain_peer h"
    by (simp add: pruned_peer_def world0_def)
  have g: "py_get (JObj [(''result'', JArr scenario_snapshots)]) ''result'' (JArr [])
             = Inr (JArr scenario_snapshots)"
          "py_iter (JArr scenario_snapshots) = Inr scenario_snapshots"
          "py_get (JObj [(''result'', JArr ?kept)]) ''result'' (JArr []) = Inr (JArr ?kept)"
          "py_iter (JArr ?kept) = Inr ?kept"
    by simp_all
  from inst q q' rest g
  have part2: "prune_snapshots pruned_peer (Some ''tank'') 2 ''backup-'' world0 =
       prune_snapshots plain_peer (Some ''tank'') 2 ''backup-'' world0"
    by blast
  from inst have part3:
    "filter_loop ''backup-'' ?kept [] = filter_loop ''backup-'' scenario_snapshots []"
    by blast
  from run part1 kept part2 part3 show ?thesis by blast
qed

text \<open>
  C5. On the four records of the scenario, with the prefix \<^verbatim>\<open>backup-\<close> and \<open>keep = 2\<close>:
  the matching records are A, B, D; sorted they are B, D, A; B and D are retained, A is
  doomed; and the pass sends the query and one delete request, for A.
\<close>

theorem scenario_keep_two:
  assumes "ws (sent w @ [query_request dset]) = Inr (JObj [(''result'', JArr scenario_snapshots)])"
      and "ws (sent w @ [query_request dset,
                         envelope ''pool.snapshot.delete'' [JStr ''tank@backup-A''] 10]) = Inr reply"
  shows "filter_loop ''backup-'' scenario_snapshots [] = Inr [entry_A, entry_B, entry_D]
       \<and> sort_newest_first [entry_A, entry_B, entry_D] = [entry_B, entry_D, entry_A]
       \<and> py_slice_to 2 [entry_B, entry_D, entry_A] = [entry_B, entry_D]
       \<and> py_slice_from 2 [entry_B, entry_D, entry_A] = [entry_A]
       \<and> prune_snapshots ws dset 2 ''backup-'' w =
           (Inr (),
            \<lparr>sent = sent w @ [query_request dset,
                               envelope ''pool.snapshot.delete'' [JStr ''tank@backup-A''] 10],
             out = out w @ [Pruning_snapshots 2 ''backup-'', Deleting ''backup-A'',
                            Prune_completed]\<rparr>)"
proof -
  have sl: "py_slice_from 2 [entry_B, entry_D, entry_A] = [entry_A]"
           "py_slice_to 2 [entry_B, entry_D, entry_A] = [entry_B, entry_D]"
    by (simp_all add: py_slice_from_def py_slice_to_def)
  have "prune_snapshots ws dset 2 ''backup-'' w =
           (Inr (),
            \<lparr>sent = sent w @ [query_request dset,
                               envelope ''pool.snapshot.delete'' [JStr ''tank@backup-A''] 10],
             out = out w @ [Pruning_snapshots 2 ''backup-'', Deleting ''backup-A'',
                            Prune_completed]\<rparr>)"
    using prune_snapshots_run [of ws w dset "JObj [(''result'', JArr scenario_snapshots)]"
            "JArr scenario_snapshots" scenario_snapshots "''backup-''"
            "[entry_A, entry_B, entry_D]" 2, OF assms(1) _ _ scenario_filtered] assms(2) sl
    by (simp add: scenario_sorted) (simp add: entry_A_def ws_call_eq print_def)
  with sl scenario_filtered scenario_sorted show ?thesis by simp
qed

text \<open>
  C5 at an appliance that answers the first request with the four records.
\<close>

theorem scenario_keep_two_witness:
  "prune_snapshots plain_peer (Some ''tank'') 2 ''backup-'' world0 =
     (Inr (),
      \<lparr>sent = [query_request (Some ''tank''),
               envelope ''pool.snapshot.delete'' [JStr ''tank@backup-A''] 10],
       out = [Pruning_snapshots 2 ''backup-'', Deleting ''backup-A'', Prune_completed]\<rparr>)"
  using scenario_keep_two [of plain_peer world0 "Some ''tank''" "JObj [(''result'', JBool True)]"]
  by (simp add: plain_peer_def world0_def)

text \<open>
  C3 fails for a negative \<open>keep\<close>. With \<open>keep = -1\<close> on the scenario's records the slice
  \<^verbatim>\<open>filtered[-1:]\<close> is the oldest record alone: B and D are retained, and only A is deleted.
\<close>

theorem negative_keep_spares_newer:
  "py_slice_from (- 1) (sort_newest_first [entry_A, entry_B, entry_D]) = [entry_A]
   \<and> py_slice_to (- 1) (sort_newest_first [entry_A, entry_B, entry_D]) = [entry_B, entry_D]
   \<and> prune_snapshots plain_peer (Some ''tank'') (- 1) ''backup-'' world0 =
       (Inr (),
        \<lparr>sent = [query_request (Some ''tank''),
                 envelope ''pool.snapshot.delete'' [JStr ''tank@backup-A''] 10],
         out = [Pruning_snapshots (- 1) ''backup-'', Deleting ''backup-A'', Prune_completed]\<rparr>)"
proof -
  have sl: "py_slice_from (- 1) [entry_B, entry_D, entry_A] = [entry_A]"
           "py_slice_to (- 1) [entry_B, entry_D, entry_A] = [entry_B, entry_D]"
    by (simp_all add: py_slice_from_def py_slice_to_def)
  have "prune_snapshots plain_peer (Some ''tank'') (- 1) ''backup-'' world0 =
       (Inr (),
        \<lparr>sent = [query_request (Some ''tank''),
                 envelope ''pool.snapshot.delete'' [JStr ''tank@backup-A''] 10],
         out = [Pruning_snapshots (- 1) ''backup-'', Deleting ''backup-A'', Prune_completed]\<rparr>)"
    using plain_peer_run [of "- 1"] by (simp add: sl) (simp add: entry_A_def)
  with sl show ?thesis by (simp add: scenario_sorted)
qed

text \<open>
  C4 fails for a negative \<open>keep\<close>. With \<open>keep = -1\<close> on the scenario's records two records
  are retained, more than \<open>max keep 0 = 0\<close>; the two parts still add up to the three
  matching records.
\<close>

theorem negative_keep_retains_two:
  "length (py_slice_to (- 1) (sort_newest_first [entry_A, entry_B, entry_D])) = 2
   \<and> max (- 1) 0 = (0::int)
   \<and> length (py_slice_to (- 1) (sort_newest_first [entry_A, entry_B, entry_D]))
       + length (py_slice_from (- 1) (sort_newest_first [entry_A, entry_B, entry_D])) = 3"
  by (simp add: scenario_sorted py_slice_from_def py_slice_to_def)

section \<open>The whole program\<close>

lemma create_snapshot_error:
  assumes "ws (sent w @ [envelope ''pool.snapshot.create'' (create_params dset name) 2])
             = Inr (JObj kvs)"
      and "map_of kvs ''error'' = Some v"
  shows "create_snapshot ws dset name w =
     (Inl (SystemExit 1),
      \<lparr>sent = sent w @ [envelope ''pool.snapshot.create'' (create_params dset name) 2],
       out = out w @ [Creating_snapshot name, ERROR v]\<rparr>)"
proof -
  from assms(2) have "(''error'', v) \<in> set kvs" by (rule map_of_SomeD)
  then have "''error'' \<in> fst ` set kvs" by force
  with assms show ?thesis
    by (cases w) (simp add: create_snapshot_def ws_call_eq print_def)
qed

text \<open>
  C7. When the connection and the login succeed and the reply to the creation request is
  a dict with an \<open>error\<close> field, the program prints the error and ends by
  \<^verbatim>\<open>sys.exit(1)\<close>: the exit status is 1, and the creation request is the last request sent
  (no query, no delete).
\<close>

theorem create_error_exits:
  assumes "net (url_of (host a)) = Inr ws"
      and "login ws (token a) w = (Inr (), w1)"
      and "ws (sent w1 @ [envelope ''pool.snapshot.create''
                             (create_params (dataset a) (snapname a)) 2]) = Inr (JObj kvs)"
      and "map_of kvs ''error'' = Some v"
  shows "main net a w =
           (Inl (SystemExit 1),
            \<lparr>sent = sent w1 @ [envelope ''pool.snapshot.create''
                                 (create_params (dataset a) (snapname a)) 2],
             out = out w1 @ [Creating_snapshot (snapname a), ERROR v]\<rparr>)
       \<and> exit_status (fst (main net a w)) = 1
       \<and> sent w1 = sent w @ [envelope ''auth.login_with_api_key'' [opt_str (token a)] 1]"
  using assms(1,2)
        create_snapshot_error [of ws w1 "dataset a" "snapname a" kvs v, OF assms(3,4)]
        login_sent [OF assms(2)]
  by (simp add: main_def ws_connect_def exit_status_def)

text \<open>
  C7 at an appliance that accepts the login and rejects the creation, with pruning asked
  for.
\<close>

theorem create_error_exits_witness:
  "main (\<lambda>url. Inr failing_create_peer) (sample_args (Some 2)) world0 =
     (Inl (SystemExit 1),
      \<lparr>sent = [envelope ''auth.login_with_api_key'' [JStr ''key''] 1,
               envelope ''pool.snapshot.create'' (create_params (Some ''tank'') ''backup-E'') 2],
       out = [Creating_snapshot ''backup-E'', ERROR (JStr ''EEXIST'')]\<rparr>)
   \<and> exit_status (fst (main (\<lambda>url. Inr failing_create_peer) (sample_args (Some 2)) world0)) = 1"
proof -
  let ?w1 = "\<lparr>sent = [envelope ''auth.login_with_api_key'' [JStr ''key''] 1], out = []\<rparr>"
  have l: "login failing_create_peer (token (sample_args (Some 2))) world0 = (Inr (), ?w1)"
    by (simp add: login_def ws_call_eq failing_create_peer_def sample_args_def world0_def
                  opt_str_def)
  from create_error_exits [of "\<lambda>url. Inr failing_create_peer" "sample_args (Some 2)"
      failing_create_peer world0 ?w1 "[(''error'', JStr ''EEXIST'')]" "JStr ''EEXIST''", OF _ l]
  show ?thesis
    by (simp add: failing_create_peer_def sample_args_def opt_str_def exit_status_def)
qed

lemma main_without_prune:
  assumes "prune a = None \<or> prune a = Some 0" and "main net a w = (r, w')"
  shows "sent w' = sent w
       \<or> sent w' = sent w @ [envelope ''auth.login_with_api_key'' [opt_str (token a)] 1]
       \<or> sent w' = sent w @ [envelope ''auth.login_with_api_key'' [opt_str (token a)] 1,
                              envelope ''pool.snapshot.create''
                                (create_params (dataset a) (snapname a)) 2]"
proof (cases "net (url_of (host a))")
  case (Inl e)
  with assms(2) show ?thesis by (simp add: main_def ws_connect_def)
next
  case ws: (Inr ws)
  obtain r1 w1 where l: "login ws (token a) w = (r1, w1)" by (cases "login ws (token a) w") auto
  note s1 = login_sent [OF l]
  show ?thesis
  proof (cases r1)
    case (Inl e)
    with assms(2) ws l s1 show ?thesis by (simp add: main_def ws_connect_def)
  next
    case (Inr u)
    obtain r2 w2 where c: "create_snapshot ws (dataset a) (snapname a) w1 = (r2, w2)"
      by (cases "create_snapshot ws (dataset a) (snapname a) w1") auto
    note s2 = create_sent [OF c]
    from assms ws l Inr c have "w' = w2"
      by (auto simp: main_def ws_connect_def split: sum.splits)
    with s1 s2 show ?thesis by simp
  qed
qed

text \<open>
  C9. With \<^verbatim>\<open>--prune 0\<close> the program does exactly what it does without the option, and
  sends neither a query nor a delete request.
\<close>

theorem prune_zero_skips:
  assumes "prune a = Some 0"
  shows "main net a w = main net (a\<lparr>prune := None\<rparr>) w
       \<and> filter (\<lambda>m. is_request ''pool.snapshot.query'' m \<or> is_request ''pool.snapshot.delete'' m)
            (requests_since w (snd (main net a w))) = []"
proof -
  have same: "main net a w = main net (a\<lparr>prune := None\<rparr>) w"
    using assms by (simp add: main_def split: sum.splits prod.splits)
  obtain r w' where run: "main net a w = (r, w')" by (cases "main net a w") auto
  then have w': "snd (main net a w) = w'" by simp
  from main_without_prune [OF _ run] assms
  have "filter (\<lambda>m. is_request ''pool.snapshot.query'' m \<or> is_request ''pool.snapshot.delete'' m)
          (requests_since w w') = []"
    by (auto simp: requests_since_def is_request_def envelope_method)
  with same show ?thesis unfolding w' by blast
qed

text \<open>
  C9 at an appliance that accepts everything: the login and the creation are the only
  requests.
\<close>

theorem prune_zero_skips_witness:
  "main (\<lambda>url. Inr obliging_peer) (sample_args (Some 0)) world0 =
     main (\<lambda>url. Inr obliging_peer) (sample_args None) world0
   \<and> requests_since world0 (snd (main (\<lambda>url. Inr obliging_peer) (sample_args (Some 0)) world0)) =
       [envelope ''auth.login_with_api_key'' [JStr ''key''] 1,
        envelope ''pool.snapshot.create'' (create_params (Some ''tank'') ''backup-E'') 2]
   \<and> exit_status (fst (main (\<lambda>url. Inr obliging_peer) (sample_args (Some 0)) world0)) = 0"
proof -
  have "main (\<lambda>url. Inr obliging_peer) (sample_args None) world0 =
          (Inr (), \<lparr>sent = [envelope ''auth.login_with_api_key'' [JStr ''key''] 1,
                            envelope ''pool.snapshot.create''
                              (create_params (Some ''tank'') ''backup-E'') 2],
                    out = [Creating_snapshot ''backup-E'', OK (JStr ''tank@backup-E'')]\<rparr>)"
    by (simp add: main_def ws_connect_def login_def create_snapshot_def ws_call_eq print_def
                  obliging_peer_def sample_args_def world0_def opt_str_def)
  with prune_zero_skips [of "sample_args (Some 0)" "\<lambda>url. Inr obliging_peer" world0]
  show ?thesis
    by (simp add: sample_args_def requests_since_def world0_def exit_status_def)
qed

end
